theory Spec2Isabelle
  imports Main
begin

section \<open>The changes list of the desktop client (app/src/ui/changes/changes-list.tsx)\<close>

text \<open>
  The component \<open>ChangesList\<close> is a React class without state of its own: every method
  reads \<open>this.props\<close> and either returns a value (the rendered elements, the menu handed
  to \<open>showContextualMenu\<close>) or calls the callbacks it was given. The embedding passes the
  props explicitly, returns the built values, and records the callbacks a method invokes
  as a list of calls in the order they are made.
\<close>

subsection \<open>Data\<close>

text \<open>
  \<open>AppFileStatus\<close>, \<open>DiffSelectionType\<close> and \<open>CheckboxValue\<close> are enums imported from
  other modules; the component only compares their values. \<open>DiffSelectionType\<close> has the
  members All, Partial and None (suffixed here, since \<open>All\<close> and \<open>None\<close> are constants of
  HOL).
\<close>

datatype AppFileStatus = New | Modified | Deleted | Renamed | Conflicted | Copied

datatype DiffSelectionType = All_selection | Partial_selection | None_selection

datatype CheckboxValue = On | Off | Mixed

text \<open>
  The build defines \<open>__DARWIN__\<close>, \<open>__WIN32__\<close> and \<open>__LINUX__\<close> from the host platform;
  exactly one of them is true.
\<close>

datatype platform = Darwin | Win32 | Linux

text \<open>
  A \<open>WorkingDirectoryFileChange\<close>: \<open>file_id\<close> is the field \<open>id\<close>, and \<open>selection\<close> is
  what \<open>file.selection.getSelectionType()\<close> returns.
\<close>

record WorkingDirectoryFileChange =
  file_id :: string
  path :: string
  oldPath :: "string option"
  status :: AppFileStatus
  selection :: DiffSelectionType

text \<open>\<open>includeAll\<close> is \<open>boolean | null\<close>: \<open>None\<close> is \<open>null\<close>.\<close>

record WorkingDirectoryStatus =
  files :: "WorkingDirectoryFileChange list"
  includeAll :: "bool option"

text \<open>The props the modelled methods read. The callbacks are modelled as calls, below.\<close>

record IChangesListProps =
  workingDirectory :: WorkingDirectoryStatus
  selectedFilesID :: "string list"

text \<open>A value of type \<open>string | string[]\<close>.\<close>

datatype string_or_array = Str string | Arr "string list"

text \<open>An invocation of one of the callbacks in the props, with its argument.\<close>

datatype call =
    Props_onSelectAll bool
  | Props_onDiscardChanges WorkingDirectoryFileChange
  | Props_onDiscardAllChanges "WorkingDirectoryFileChange list"
  | Props_onIgnore string_or_array
  | Props_onRevealInFileManager string
  | Props_onOpenItem string

text \<open>
  The closures stored in the \<open>action\<close> field of a menu item, with the values they capture.
  They are run later, against the props of that moment, by \<open>run_action\<close>.
\<close>

datatype action =
    Action_onDiscardAllChanges
  | Action_onDiscardChanges "string list"
  | Action_onIgnore string_or_array
  | Action_onRevealInFileManager string
  | Action_onOpenItem string

text \<open>
  An \<open>IMenuItem\<close>: a separator, or a labelled action. The field \<open>enabled\<close> is optional in
  the source; \<open>None\<close> is an item that does not set it.
\<close>

datatype IMenuItem = Separator | MenuItem string action "bool option"

fun item_label :: "IMenuItem \<Rightarrow> string option" where
  "item_label Separator = None"
| "item_label (MenuItem l a e) = Some l"

fun item_action :: "IMenuItem \<Rightarrow> action option" where
  "item_action Separator = None"
| "item_action (MenuItem l a e) = Some a"

fun item_enabled :: "IMenuItem \<Rightarrow> bool option" where
  "item_enabled Separator = None"
| "item_enabled (MenuItem l a e) = e"

subsection \<open>Constants\<close>

definition GitIgnoreFileName :: string where
  "GitIgnoreFileName = ''.gitignore''"

definition RestrictedFileExtensions :: "string list" where
  "RestrictedFileExtensions = [''.cmd'', ''.exe'', ''.bat'', ''.sh'']"

text \<open>The character U+2026 that ends the discard labels, in UTF-8.\<close>

definition ellipsis :: string where
  "ellipsis = [CHR 0xE2, CHR 0x80, CHR 0xA6]"

subsection \<open>Library functions the component calls\<close>

text \<open>
  \<open>Array.prototype.find\<close> is \<^const>\<open>List.find\<close> (the first element that satisfies the
  predicate, \<open>None\<close> for \<open>undefined\<close>). \<open>Array.prototype.findIndex\<close> returns the index of
  that element, and \<open>-1\<close> when there is none.
\<close>

fun findIndexFrom :: "int \<Rightarrow> ('a \<Rightarrow> bool) \<Rightarrow> 'a list \<Rightarrow> int" where
  "findIndexFrom i P [] = - 1"
| "findIndexFrom i P (x # xs) = (if P x then i else findIndexFrom (i + 1) P xs)"

definition findIndex :: "('a \<Rightarrow> bool) \<Rightarrow> 'a list \<Rightarrow> int" where
  "findIndex P xs = findIndexFrom 0 P xs"

text \<open>
  \<open>String.prototype.toLowerCase\<close>, on the letters A to Z. A string is a list of bytes
  here, and the bytes of a character outside ASCII are left as they are. JavaScript
  lowers two characters outside ASCII to text with an ASCII letter (the Kelvin sign to
  \<open>k\<close>, the dotted capital I to \<open>i\<close> and a combining dot); no entry of
  \<open>RestrictedFileExtensions\<close>, the only strings a lowered extension is compared with, has
  one of these letters, so the comparison is the same.
\<close>

definition lowerChar :: "char \<Rightarrow> char" where
  "lowerChar c =
     (if 65 \<le> (of_char c :: nat) \<and> (of_char c :: nat) \<le> 90
      then char_of ((of_char c :: nat) + 32) else c)"

definition toLowerCase :: "string \<Rightarrow> string" where
  "toLowerCase s = map lowerChar s"

text \<open>
  \<open>Path\<close> is the \<open>path\<close> module of Node.js, for the host platform: \<open>path.win32\<close> on
  Windows, where both slashes separate and a drive letter with its colon is skipped,
  and \<open>path.posix\<close> elsewhere. Both functions work on the last portion of the path,
  found from the end: the separators that end the path are ignored, and the portion
  runs back to the separator before it.
\<close>

definition isPathSeparator :: "platform \<Rightarrow> char \<Rightarrow> bool" where
  "isPathSeparator pl c = (c = CHR ''/'' \<or> (pl = Win32 \<and> c = CHR 0x5C))"

definition isWindowsDeviceRoot :: "char \<Rightarrow> bool" where
  "isWindowsDeviceRoot c =
     ((65 \<le> (of_char c :: nat) \<and> (of_char c :: nat) \<le> 90) \<or>
      (97 \<le> (of_char c :: nat) \<and> (of_char c :: nat) \<le> 122))"

fun skipDrive :: "platform \<Rightarrow> string \<Rightarrow> string" where
  "skipDrive pl (d # c # rest) =
     (if pl = Win32 \<and> isWindowsDeviceRoot d \<and> c = CHR '':'' then rest else d # c # rest)"
| "skipDrive pl p = p"

definition lastPortion :: "platform \<Rightarrow> string \<Rightarrow> string" where
  "lastPortion pl p =
     rev (takeWhile (\<lambda>c. \<not> isPathSeparator pl c)
            (dropWhile (isPathSeparator pl) (rev (skipDrive pl p))))"

definition basename :: "platform \<Rightarrow> string \<Rightarrow> string" where
  "basename pl p = lastPortion pl p"

text \<open>
  \<open>path.extname\<close>: from the last dot of the last portion to its end; the empty string
  when the portion has no dot, when its only dot is its first character, and for the
  portion \<open>..\<close>.
\<close>

definition extname :: "platform \<Rightarrow> string \<Rightarrow> string" where
  "extname pl p =
     (let b = lastPortion pl p;
          after = takeWhile (\<lambda>c. c \<noteq> CHR ''.'') (rev b)
      in if CHR ''.'' \<notin> set b then []
         else if length after + 1 = length b then []
         else if b = ''..'' then []
         else CHR ''.'' # rev after)"

subsection \<open>The methods of the component\<close>

text \<open>\<open>onIncludeAllChanged\<close>: the checkbox of the header was toggled.\<close>

definition onIncludeAllChanged :: "bool \<Rightarrow> call list" where
  "onIncludeAllChanged checked = [Props_onSelectAll checked]"

text \<open>
  \<open>renderRow\<close>: the props of the \<open>ChangedFile\<close> element of a row. Reading a row past the
  end of the list gives \<open>undefined\<close> and the method throws; that is \<open>None\<close>.
\<close>

record ChangedFileProps =
  cf_path :: string
  cf_status :: AppFileStatus
  cf_oldPath :: "string option"
  cf_include :: "bool option"
  cf_key :: string

definition renderRow :: "IChangesListProps \<Rightarrow> nat \<Rightarrow> ChangedFileProps option" where
  "renderRow props row =
     (if row < length (files (workingDirectory props)) then
        (let file = files (workingDirectory props) ! row;
             sel = selection file;
             includeAll =
               (if sel = All_selection then Some True
                else if sel = None_selection then Some False else None)
         in Some \<lparr>cf_path = path file, cf_status = status file, cf_oldPath = oldPath file,
                   cf_include = includeAll, cf_key = file_id file\<rparr>)
      else None)"

text \<open>The getter \<open>includeAllValue\<close>.\<close>

definition includeAllValue :: "IChangesListProps \<Rightarrow> CheckboxValue" where
  "includeAllValue props =
     (let includeAll = includeAll (workingDirectory props)
      in if includeAll = Some True then On
         else if includeAll = Some False then Off
         else Mixed)"

definition onDiscardAllChanges :: "IChangesListProps \<Rightarrow> call list" where
  "onDiscardAllChanges props = [Props_onDiscardAllChanges (files (workingDirectory props))]"

text \<open>
  \<open>onDiscardChanges\<close>. The loop over \<open>paths\<close> pushes the file found for each path, when
  there is one.
\<close>

fun filesOfPaths ::
  "WorkingDirectoryFileChange list \<Rightarrow> string list \<Rightarrow> WorkingDirectoryFileChange list" where
  "filesOfPaths fileList [] = []"
| "filesOfPaths fileList (p # ps) =
     (case List.find (\<lambda>f. path f = p) fileList of
        Some file \<Rightarrow> file # filesOfPaths fileList ps
      | None \<Rightarrow> filesOfPaths fileList ps)"

fun onDiscardChanges :: "IChangesListProps \<Rightarrow> string_or_array \<Rightarrow> call list" where
  "onDiscardChanges props (Arr paths) =
     (let files = filesOfPaths (files (workingDirectory props)) paths
      in if length files \<noteq> 0 then [Props_onDiscardAllChanges files] else [])"
| "onDiscardChanges props (Str paths) =
     (case List.find (\<lambda>f. path f = paths) (files (workingDirectory props)) of
        None \<Rightarrow> []
      | Some file \<Rightarrow> [Props_onDiscardChanges file])"

text \<open>Running the closure of a menu item, against the props at that time.\<close>

fun run_action :: "IChangesListProps \<Rightarrow> action \<Rightarrow> call list" where
  "run_action props Action_onDiscardAllChanges = onDiscardAllChanges props"
| "run_action props (Action_onDiscardChanges paths) = onDiscardChanges props (Arr paths)"
| "run_action props (Action_onIgnore pattern) = [Props_onIgnore pattern]"
| "run_action props (Action_onRevealInFileManager target) = [Props_onRevealInFileManager target]"
| "run_action props (Action_onOpenItem target) = [Props_onOpenItem target]"

text \<open>\<open>onContextMenu\<close>: the menu of the header.\<close>

definition onContextMenu :: "platform \<Rightarrow> IChangesListProps \<Rightarrow> IMenuItem list" where
  "onContextMenu pl props =
     [MenuItem
        ((if pl = Darwin then ''Discard All Changes'' else ''Discard all changes'') @ ellipsis)
        Action_onDiscardAllChanges
        (Some (length (files (workingDirectory props)) > 0))]"

text \<open>
  \<open>onItemContextMenu\<close>. First the files of the selection: the loop over
  \<open>selectedFilesID\<close> pushes the file found for each identifier, when there is one.
\<close>

fun filesOfIDs ::
  "WorkingDirectoryFileChange list \<Rightarrow> string list \<Rightarrow> WorkingDirectoryFileChange list" where
  "filesOfIDs fileList [] = []"
| "filesOfIDs fileList (fileID # ids) =
     (case List.find (\<lambda>file. file_id file = fileID) fileList of
        Some newFile \<Rightarrow> newFile # filesOfIDs fileList ids
      | None \<Rightarrow> filesOfIDs fileList ids)"

definition selectedFiles :: "IChangesListProps \<Rightarrow> WorkingDirectoryFileChange list" where
  "selectedFiles props = filesOfIDs (files (workingDirectory props)) (selectedFilesID props)"

text \<open>
  The filter over \<open>extensions\<close> keeps an item when the object \<open>seen\<close> has no property of
  that name, and then sets the property. The first argument is the set of the
  properties of \<open>seen\<close>. (An extension is empty or starts with a dot, lemma
  \<open>extname_shape\<close>, so it is never the name of a property that an object inherits or
  treats specially.)
\<close>

fun seenFilter :: "string list \<Rightarrow> string list \<Rightarrow> string list" where
  "seenFilter seen [] = []"
| "seenFilter seen (item # items) =
     (if item \<in> set seen then seenFilter seen items
      else item # seenFilter (item # seen) items)"

definition extensionsOf :: "platform \<Rightarrow> WorkingDirectoryFileChange list \<Rightarrow> string list" where
  "extensionsOf pl selected = seenFilter [] (map (\<lambda>file. extname pl (path file)) selected)"

text \<open>The items pushed by the test on \<open>fileName.length\<close>.\<close>

definition ignoreItems :: "string \<Rightarrow> string list \<Rightarrow> string list \<Rightarrow> IMenuItem list" where
  "ignoreItems target paths fileName =
     (if length fileName = 1 then
        [MenuItem ''Ignore'' (Action_onIgnore (Str target))
           (Some (fileName ! 0 \<noteq> GitIgnoreFileName))]
      else if length fileName > 1 then
        [MenuItem ''Ignore all'' (Action_onIgnore (Arr paths))
           (Some (fileName ! 0 \<noteq> GitIgnoreFileName))]
      else [])"

text \<open>The items pushed by the loop over \<open>extensions\<close>; an empty string is falsy.\<close>

fun extensionItems :: "platform \<Rightarrow> string list \<Rightarrow> IMenuItem list" where
  "extensionItems pl [] = []"
| "extensionItems pl (extension # extensions) =
     (if extension \<noteq> [] then
        [MenuItem
           (if pl = Darwin then ''Ignore All '' @ extension @ '' Files''
            else ''Ignore all '' @ extension @ '' files'')
           (Action_onIgnore (Str (''*'' @ extension))) None]
      else []) @ extensionItems pl extensions"

definition isSafeExtension :: "platform \<Rightarrow> string list \<Rightarrow> bool" where
  "isSafeExtension pl extensions =
     (if pl = Win32
      then list_all (\<lambda>extension. toLowerCase extension \<notin> set RestrictedFileExtensions)
             extensions
      else True)"

definition revealInFileManagerLabel :: "platform \<Rightarrow> string" where
  "revealInFileManagerLabel pl =
     (if pl = Darwin then ''Reveal in Finder''
      else if pl = Win32 then ''Show in Explorer'' else ''Show in your File Manager'')"

definition revealItem :: "platform \<Rightarrow> string \<Rightarrow> AppFileStatus \<Rightarrow> IMenuItem" where
  "revealItem pl target st =
     MenuItem (revealInFileManagerLabel pl) (Action_onRevealInFileManager target)
       (Some (st \<noteq> Deleted))"

definition openItem :: "platform \<Rightarrow> string list \<Rightarrow> string \<Rightarrow> AppFileStatus \<Rightarrow> IMenuItem" where
  "openItem pl extensions target st =
     MenuItem (if pl = Darwin then ''Open with Default Program'' else ''Open with default program'')
       (Action_onOpenItem target)
       (Some (isSafeExtension pl extensions \<and> st \<noteq> Deleted))"

definition discardItem :: "platform \<Rightarrow> string list \<Rightarrow> IMenuItem" where
  "discardItem pl paths =
     MenuItem ((if pl = Darwin then ''Discard Changes'' else ''Discard changes'') @ ellipsis)
       (Action_onDiscardChanges paths) None"

text \<open>The list handed to \<open>showContextualMenu\<close>.\<close>

definition onItemContextMenu ::
  "platform \<Rightarrow> IChangesListProps \<Rightarrow> string \<Rightarrow> AppFileStatus \<Rightarrow> IMenuItem list" where
  "onItemContextMenu pl props target st =
     (let selected = selectedFiles props;
          paths = map path selected;
          fileName = map (\<lambda>file. basename pl (path file)) selected;
          extensions = extensionsOf pl selected
      in [discardItem pl paths, Separator]
         @ ignoreItems target paths fileName
         @ extensionItems pl extensions
         @ [Separator, revealItem pl target st, openItem pl extensions target st])"

text \<open>
  \<open>render\<close>: the rows handed to the list as selected, and what the header's checkbox
  and the commit form are given.
\<close>

fun selectedRows :: "WorkingDirectoryFileChange list \<Rightarrow> string list \<Rightarrow> int list" where
  "selectedRows fileList [] = []"
| "selectedRows fileList (fileID # ids) =
     findIndex (\<lambda>file. file_id file = fileID) fileList # selectedRows fileList ids"

text \<open>The decimal digits of a number, as a template literal prints it.\<close>

fun decimal :: "nat \<Rightarrow> string" where
  "decimal n =
     (if n < 10 then [char_of (48 + n)]
      else decimal (n div 10) @ [char_of (48 + n mod 10)])"

record rendered =
  list_selectedRows :: "int list"
  list_rowCount :: nat
  checkbox_label :: string
  checkbox_value :: CheckboxValue
  checkbox_disabled :: bool
  commit_anyFilesSelected :: bool

definition render :: "IChangesListProps \<Rightarrow> rendered" where
  "render props =
     (let fileList = files (workingDirectory props);
          rows = selectedRows fileList (selectedFilesID props);
          fileCount = length fileList;
          filesPlural = (if fileCount = 1 then ''file'' else ''files'');
          filesDescription = decimal fileCount @ '' changed '' @ filesPlural;
          anyFilesSelected = (fileCount > 0 \<and> includeAllValue props \<noteq> Off)
      in \<lparr>list_selectedRows = rows,
          list_rowCount = length (files (workingDirectory props)),
          checkbox_label = filesDescription,
          checkbox_value = includeAllValue props,
          checkbox_disabled = (fileCount = 0),
          commit_anyFilesSelected = anyFilesSelected\<rparr>)"

subsection \<open>Reading a menu\<close>

text \<open>
  The items of a menu are told apart by what they do: the item that reveals a file, the
  item that opens one, and the two items labelled \<open>Ignore\<close> and \<open>Ignore all\<close>.
\<close>

fun is_reveal :: "IMenuItem \<Rightarrow> bool" where
  "is_reveal (MenuItem l (Action_onRevealInFileManager t) e) = True"
| "is_reveal item = False"

fun is_open :: "IMenuItem \<Rightarrow> bool" where
  "is_open (MenuItem l (Action_onOpenItem t) e) = True"
| "is_open item = False"

definition is_ignore :: "IMenuItem \<Rightarrow> bool" where
  "is_ignore item = (item_label item = Some ''Ignore'' \<or> item_label item = Some ''Ignore all'')"



subsection \<open>Case variants\<close>

text \<open>
  Two strings are case variants of each other when they have the same length and, place
  by place, the same character or the upper-case and the lower-case form of one letter.
  The letters are given by their table, not by \<open>toLowerCase\<close>.
\<close>

definition letterPairs :: "(char \<times> char) list" where
  "letterPairs = zip ''ABCDEFGHIJKLMNOPQRSTUVWXYZ'' ''abcdefghijklmnopqrstuvwxyz''"

definition variantChar :: "char \<Rightarrow> char \<Rightarrow> bool" where
  "variantChar c d = (c = d \<or> (c, d) \<in> set letterPairs \<or> (d, c) \<in> set letterPairs)"

definition caseVariant :: "string \<Rightarrow> string \<Rightarrow> bool" where
  "caseVariant s t = list_all2 variantChar s t"

subsection \<open>Inputs of the examples\<close>

text \<open>
  A changed file with an identifier, a path and a status (not renamed, wholly selected),
  and the props of a working directory with a list of files and a selection.
\<close>

definition changedFile :: "string \<Rightarrow> string \<Rightarrow> AppFileStatus \<Rightarrow> WorkingDirectoryFileChange" where
  "changedFile i p st =
     \<lparr>file_id = i, path = p, oldPath = None, status = st, selection = All_selection\<rparr>"

definition propsOf :: "WorkingDirectoryFileChange list \<Rightarrow> string list \<Rightarrow> IChangesListProps" where
  "propsOf fileList ids =
     \<lparr>workingDirectory = \<lparr>files = fileList, includeAll = Some True\<rparr>, selectedFilesID = ids\<rparr>"

section \<open>Properties\<close>

subsection \<open>Finding a row\<close>

lemma findIndexFrom_absent: "\<forall>x \<in> set xs. \<not> P x \<Longrightarrow> findIndexFrom i P xs = - 1"
  by (induction xs arbitrary: i) auto

lemma findIndexFrom_present:
  "\<exists>x \<in> set xs. P x \<Longrightarrow>
     i \<le> findIndexFrom i P xs \<and> findIndexFrom i P xs < i + int (length xs) \<and>
     P (xs ! nat (findIndexFrom i P xs - i))"
proof (induction xs arbitrary: i)
  case Nil
  then show ?case by simp
next
  case (Cons x xs)
  show ?case
  proof (cases "P x")
    case True
    then show ?thesis by simp
  next
    case False
    with Cons.prems have "\<exists>y \<in> set xs. P y" by auto
    from Cons.IH [OF this, of "i + 1"]
    have ih: "i + 1 \<le> findIndexFrom (i + 1) P xs"
      "findIndexFrom (i + 1) P xs < i + 1 + int (length xs)"
      "P (xs ! nat (findIndexFrom (i + 1) P xs - (i + 1)))"
      by simp_all
    have "nat (findIndexFrom (i + 1) P xs - i) = Suc (nat (findIndexFrom (i + 1) P xs - (i + 1)))"
      using ih(1) by linarith
    with ih False show ?thesis by simp
  qed
qed

lemma findIndex_absent:
  "fileID \<notin> file_id ` set fileList \<Longrightarrow>
     findIndex (\<lambda>file. file_id file = fileID) fileList = - 1"
  unfolding findIndex_def by (rule findIndexFrom_absent) auto

lemma findIndex_present:
  assumes "fileID \<in> file_id ` set fileList"
  shows "0 \<le> findIndex (\<lambda>file. file_id file = fileID) fileList"
    and "findIndex (\<lambda>file. file_id file = fileID) fileList < int (length fileList)"
    and "file_id (fileList ! nat (findIndex (\<lambda>file. file_id file = fileID) fileList)) = fileID"
proof -
  from assms have "\<exists>x \<in> set fileList. file_id x = fileID" by auto
  from findIndexFrom_present [OF this, of 0]
  show "0 \<le> findIndex (\<lambda>file. file_id file = fileID) fileList"
    and "findIndex (\<lambda>file. file_id file = fileID) fileList < int (length fileList)"
    and "file_id (fileList ! nat (findIndex (\<lambda>file. file_id file = fileID) fileList)) = fileID"
    by (simp_all add: findIndex_def)
qed

text \<open>
  What \<open>render\<close> hands to the list: one entry for every selected identifier, in their
  order, the entry of an identifier without a file being \<open>-1\<close>.
\<close>

lemma length_selectedRows: "length (selectedRows fileList ids) = length ids"
  by (induction ids) auto

lemma selectedRows_map:
  "selectedRows fileList ids = map (\<lambda>fileID. findIndex (\<lambda>file. file_id file = fileID) fileList) ids"
  by (induction ids) auto

lemma selectedRows_absent:
  "fileID \<in> set ids \<Longrightarrow> fileID \<notin> file_id ` set fileList \<Longrightarrow>
     - 1 \<in> set (selectedRows fileList ids)"
  by (induction ids) (auto simp: findIndex_absent)

text \<open>
  C1. The claim: mapping the selected identifiers to row indices never yields the
  index \<open>-1\<close>; an identifier that no file of the working directory has contributes
  nothing, so that the rows are one valid index for each identifier that is present.
  The loop of \<open>render\<close> pushes what \<open>findIndex\<close> returns without looking at it: with the
  file of identifier \<open>1\<close> in the working directory and the identifiers \<open>1\<close> and \<open>2\<close>
  selected, the rows are \<open>0\<close> and \<open>-1\<close>, where the claim has the one row \<open>0\<close>.
\<close>

theorem render_selectedRows_pushes_minus_one:
  "list_selectedRows (render
      \<lparr>workingDirectory =
         \<lparr>files = [\<lparr>file_id = ''1'', path = ''a.txt'', oldPath = None, status = Modified,
                     selection = All_selection\<rparr>],
          includeAll = Some True\<rparr>,
       selectedFilesID = [''1'', ''2'']\<rparr>) = [0, - 1]"
  by (simp add: render_def Let_def findIndex_def)

subsection \<open>The items that reveal and open the file\<close>

lemma extensionItems_filter_reveal: "filter is_reveal (extensionItems pl es) = []"
  by (induction es) auto

lemma extensionItems_filter_open: "filter is_open (extensionItems pl es) = []"
  by (induction es) auto

lemma ignoreItems_filter_reveal: "filter is_reveal (ignoreItems t ps ns) = []"
  by (simp add: ignoreItems_def)

lemma ignoreItems_filter_open: "filter is_open (ignoreItems t ps ns) = []"
  by (simp add: ignoreItems_def)

text \<open>
  C8. For every right-clicked file, on each of the three platforms, the menu has exactly
  one item that reveals a file; it reveals the right-clicked file, its label is the
  platform's, and it is enabled exactly when the status of the file is not deleted.
\<close>

theorem reveal_enabled_iff_not_deleted:
  "filter is_reveal (onItemContextMenu pl props target st) =
     [MenuItem (revealInFileManagerLabel pl) (Action_onRevealInFileManager target)
        (Some (st \<noteq> Deleted))]
   \<and> revealInFileManagerLabel Darwin = ''Reveal in Finder''
   \<and> revealInFileManagerLabel Win32 = ''Show in Explorer''
   \<and> revealInFileManagerLabel Linux = ''Show in your File Manager''"
  by (simp add: onItemContextMenu_def Let_def discardItem_def revealItem_def openItem_def
      extensionItems_filter_reveal ignoreItems_filter_reveal revealInFileManagerLabel_def)

subsection \<open>The extensions of the selected files\<close>

lemma extname_shape: "extname pl p = [] \<or> hd (extname pl p) = CHR ''.''"
  by (simp add: extname_def Let_def)

lemma remdups_snoc: "remdups (ys @ [x]) = remdups (filter (\<lambda>y. y \<noteq> x) ys) @ [x]"
  by (induction ys) auto

lemma first_occurrences_Cons:
  "rev (remdups (rev (x # zs))) = x # rev (remdups (rev (filter (\<lambda>y. y \<noteq> x) zs)))"
  by (simp add: remdups_snoc rev_filter)

lemma filter_not_seen:
  "filter (\<lambda>y. y \<notin> set (x # seen)) xs =
     filter (\<lambda>y. y \<noteq> x) (filter (\<lambda>y. y \<notin> set seen) xs)"
  by (induction xs) auto

lemma seenFilter_remdups:
  "seenFilter seen xs = rev (remdups (rev (filter (\<lambda>y. y \<notin> set seen) xs)))"
proof (induction xs arbitrary: seen)
  case Nil
  show ?case by simp
next
  case (Cons x xs)
  show ?case
  proof (cases "x \<in> set seen")
    case True
    with Cons.IH [of seen] show ?thesis by simp
  next
    case False
    then have "seenFilter seen (x # xs) = x # seenFilter (x # seen) xs"
      by simp
    also have "seenFilter (x # seen) xs =
        rev (remdups (rev (filter (\<lambda>y. y \<noteq> x) (filter (\<lambda>y. y \<notin> set seen) xs))))"
      unfolding Cons.IH [of "x # seen"] filter_not_seen ..
    also have "x # \<dots> = rev (remdups (rev (x # filter (\<lambda>y. y \<notin> set seen) xs)))"
      by (rule first_occurrences_Cons [symmetric])
    also have "x # filter (\<lambda>y. y \<notin> set seen) xs = filter (\<lambda>y. y \<notin> set seen) (x # xs)"
      using False by simp
    finally show ?thesis .
  qed
qed

lemma seenFilter_first_occurrences: "seenFilter [] xs = rev (remdups (rev xs))"
  by (simp add: seenFilter_remdups)

lemma set_seenFilter: "set (seenFilter [] xs) = set xs"
  by (simp add: seenFilter_first_occurrences)


lemma seenFilter_Cons:
  "seenFilter [] (x # xs) = x # seenFilter [] (filter (\<lambda>y. y \<noteq> x) xs)"
  using seenFilter_remdups [of "[x]" xs] seenFilter_remdups [of "[]" "filter (\<lambda>y. y \<noteq> x) xs"]
  by simp









subsection \<open>The items that ignore the selected files\<close>

lemma extensionItems_not_ignore: "filter is_ignore (extensionItems pl es) = []"
  by (induction es) (auto simp: is_ignore_def)

lemma ignoreItems_filter_ignore: "filter is_ignore (ignoreItems t ps ns) = ignoreItems t ps ns"
  by (simp add: ignoreItems_def is_ignore_def)

lemma menu_filter_ignore:
  "filter is_ignore (onItemContextMenu pl props target st) =
     ignoreItems target (map path (selectedFiles props))
       (map (\<lambda>file. basename pl (path file)) (selectedFiles props))"
  by (simp add: onItemContextMenu_def Let_def extensionItems_not_ignore ignoreItems_filter_ignore)
   (simp add: is_ignore_def discardItem_def revealItem_def openItem_def ellipsis_def revealInFileManagerLabel_def)


text \<open>
  C4, as claimed, fails: the files \<open>a/x.txt\<close> and \<open>b/x.txt\<close> have one distinct base name,
  and the menu of the two has \<open>Ignore all\<close>, not \<open>Ignore\<close>.
\<close>

theorem ignore_all_for_one_distinct_name:
  "remdups (map (basename Linux) (map path
      (selectedFiles (propsOf [changedFile ''1'' ''a/x.txt'' Modified,
                               changedFile ''2'' ''b/x.txt'' Modified] [''1'', ''2''])))) = [''x.txt'']
   \<and> map item_label (filter is_ignore (onItemContextMenu Linux
        (propsOf [changedFile ''1'' ''a/x.txt'' Modified,
                  changedFile ''2'' ''b/x.txt'' Modified] [''1'', ''2'']) ''a/x.txt'' Modified)) =
       [Some ''Ignore all'']"
  by code_simp

text \<open>
  C4, amended. The menu has at most one item labelled \<open>Ignore\<close> or \<open>Ignore all\<close>, and
  exactly one when a selected file is found: \<open>Ignore\<close>, which submits the right-clicked
  path, when exactly one file is found, and \<open>Ignore all\<close>, which submits the whole list
  of the paths as one batch, when more than one is found, whether or not their base
  names differ.
\<close>

theorem ignore_action_by_count:
  "map (\<lambda>item. (item_label item, item_action item))
      (filter is_ignore (onItemContextMenu pl props target st)) =
     (if length (selectedFiles props) = 1
      then [(Some ''Ignore'', Some (Action_onIgnore (Str target)))]
      else if length (selectedFiles props) > 1
      then [(Some ''Ignore all'', Some (Action_onIgnore (Arr (map path (selectedFiles props)))))]
      else [])
   \<and> (selectedFiles props \<noteq> [] \<longrightarrow>
        length (filter is_ignore (onItemContextMenu pl props target st)) = 1)"
  by (cases "selectedFiles props") (auto simp: menu_filter_ignore ignoreItems_def)

theorem ignore_action_by_count_witness:
  "map (\<lambda>item. (item_label item, item_action item))
      (filter is_ignore (onItemContextMenu Win32
         (propsOf [changedFile ''1'' ''a/x.txt'' Modified, changedFile ''2'' ''b/y.txt'' Modified]
            [''2'', ''1'']) ''a/x.txt'' Modified)) =
     [(Some ''Ignore all'', Some (Action_onIgnore (Arr [''b/y.txt'', ''a/x.txt''])))]
   \<and> length (filter is_ignore (onItemContextMenu Win32
         (propsOf [changedFile ''1'' ''a/x.txt'' Modified, changedFile ''2'' ''b/y.txt'' Modified]
            [''2'', ''1'']) ''a/x.txt'' Modified)) = 1"
proof -
  have sel: "selectedFiles (propsOf [changedFile ''1'' ''a/x.txt'' Modified,
      changedFile ''2'' ''b/y.txt'' Modified] [''2'', ''1'']) =
    [changedFile ''2'' ''b/y.txt'' Modified, changedFile ''1'' ''a/x.txt'' Modified]"
    by code_simp
  have p: "map path [changedFile ''2'' ''b/y.txt'' Modified, changedFile ''1'' ''a/x.txt'' Modified]
     = [''b/y.txt'', ''a/x.txt'']"
    by code_simp
  from ignore_action_by_count [of Win32 "propsOf [changedFile ''1'' ''a/x.txt'' Modified,
      changedFile ''2'' ''b/y.txt'' Modified] [''2'', ''1'']" "''a/x.txt''" Modified]
  show ?thesis unfolding sel p by simp
qed

lemma ignoreItems_enabled:
  "ns \<noteq> [] \<Longrightarrow> map item_enabled (ignoreItems t ps ns) = [Some (hd ns \<noteq> GitIgnoreFileName)]"
  by (cases ns) (auto simp: ignoreItems_def)

lemma ignore_enabled_examples:
  "map item_enabled (filter is_ignore (onItemContextMenu Linux
      (propsOf [changedFile ''1'' ''.gitignore'' Modified] [''1'']) ''.gitignore'' Modified)) = [Some False]"
  "map item_enabled (filter is_ignore (onItemContextMenu Linux
      (propsOf [changedFile ''1'' ''foo.txt'' Modified] [''1'']) ''foo.txt'' Modified)) = [Some True]"
  "map (\<lambda>item. (item_label item, item_enabled item)) (filter is_ignore (onItemContextMenu Linux
      (propsOf [changedFile ''1'' ''foo.txt'' Modified, changedFile ''2'' ''.gitignore'' Modified]
         [''1'', ''2'']) ''foo.txt'' Modified)) = [(Some ''Ignore all'', Some True)]"
  "map (\<lambda>item. (item_label item, item_enabled item)) (filter is_ignore (onItemContextMenu Linux
      (propsOf [changedFile ''1'' ''foo.txt'' Modified, changedFile ''2'' ''.gitignore'' Modified]
         [''2'', ''1'']) ''foo.txt'' Modified)) = [(Some ''Ignore all'', Some False)]"
  by code_simp+

text \<open>
  C5. When a selected file is found, the item \<open>Ignore\<close> or \<open>Ignore all\<close> is disabled
  exactly when the base name of the first file found is \<open>.gitignore\<close>. The selection of
  the one file \<open>.gitignore\<close> gives a disabled \<open>Ignore\<close>, that of \<open>foo.txt\<close> an enabled one;
  in a batch only the first name counts: \<open>foo.txt\<close> followed by \<open>.gitignore\<close> leaves
  \<open>Ignore all\<close> enabled, \<open>.gitignore\<close> followed by \<open>foo.txt\<close> disables it.
\<close>

theorem ignore_enabled_by_first_name:
  "(selectedFiles props \<noteq> [] \<longrightarrow>
      map item_enabled (filter is_ignore (onItemContextMenu pl props target st)) =
        [Some (basename pl (path (hd (selectedFiles props))) \<noteq> ''.gitignore'')])
   \<and> map item_enabled (filter is_ignore (onItemContextMenu Linux
        (propsOf [changedFile ''1'' ''.gitignore'' Modified] [''1'']) ''.gitignore'' Modified)) =
       [Some False]
   \<and> map item_enabled (filter is_ignore (onItemContextMenu Linux
        (propsOf [changedFile ''1'' ''foo.txt'' Modified] [''1'']) ''foo.txt'' Modified)) =
       [Some True]
   \<and> map (\<lambda>item. (item_label item, item_enabled item)) (filter is_ignore (onItemContextMenu Linux
        (propsOf [changedFile ''1'' ''foo.txt'' Modified, changedFile ''2'' ''.gitignore'' Modified]
           [''1'', ''2'']) ''foo.txt'' Modified)) = [(Some ''Ignore all'', Some True)]
   \<and> map (\<lambda>item. (item_label item, item_enabled item)) (filter is_ignore (onItemContextMenu Linux
        (propsOf [changedFile ''1'' ''foo.txt'' Modified, changedFile ''2'' ''.gitignore'' Modified]
           [''2'', ''1'']) ''foo.txt'' Modified)) = [(Some ''Ignore all'', Some False)]"
proof -
  have "selectedFiles props \<noteq> [] \<longrightarrow>
      map item_enabled (filter is_ignore (onItemContextMenu pl props target st)) =
        [Some (basename pl (path (hd (selectedFiles props))) \<noteq> ''.gitignore'')]"
    by (simp add: menu_filter_ignore ignoreItems_enabled hd_map GitIgnoreFileName_def)
  with ignore_enabled_examples show ?thesis by blast
qed

theorem ignore_enabled_by_first_name_witness:
  "map item_enabled (filter is_ignore (onItemContextMenu Win32
      (propsOf [changedFile ''1'' ''docs/.gitignore'' New, changedFile ''2'' ''b.txt'' New]
         [''1'', ''2'']) ''b.txt'' New)) = [Some False]"
proof -
  have sel: "selectedFiles (propsOf [changedFile ''1'' ''docs/.gitignore'' New,
      changedFile ''2'' ''b.txt'' New] [''1'', ''2'']) =
      [changedFile ''1'' ''docs/.gitignore'' New, changedFile ''2'' ''b.txt'' New]"
    by code_simp
  have b: "basename Win32 (path (changedFile ''1'' ''docs/.gitignore'' New)) = ''.gitignore''"
    by code_simp
  from ignore_enabled_by_first_name [of "propsOf [changedFile ''1'' ''docs/.gitignore'' New,
      changedFile ''2'' ''b.txt'' New] [''1'', ''2'']" Win32 "''b.txt''" New]
  show ?thesis unfolding sel by (simp add: b)
qed

subsection \<open>Discarding\<close>

lemma find_in_set: "List.find P xs = Some x \<Longrightarrow> x \<in> set xs \<and> P x"
  by (induction xs) (auto split: if_splits)

lemma find_path_None: "List.find (\<lambda>f. path f = p) fileList = None \<longleftrightarrow> p \<notin> path ` set fileList"
  by (auto simp: find_None_iff)

lemma set_filesOfPaths: "set (filesOfPaths fileList ps) \<subseteq> set fileList"
  by (induction ps) (auto split: option.splits dest: find_in_set)

lemma paths_filesOfPaths:
  "map path (filesOfPaths fileList ps) = filter (\<lambda>p. p \<in> path ` set fileList) ps"
proof (induction ps)
  case Nil
  show ?case by simp
next
  case (Cons p ps)
  show ?case
  proof (cases "List.find (\<lambda>f. path f = p) fileList")
    case None
    then have "p \<notin> path ` set fileList" by (simp add: find_path_None)
    with None Cons.IH show ?thesis by simp
  next
    case (Some f)
    then have "path f = p" "f \<in> set fileList" by (auto dest: find_in_set)
    with Some Cons.IH show ?thesis by (auto simp: image_iff)
  qed
qed

lemma filesOfPaths_first:
  "filesOfPaths fileList ps =
     map (\<lambda>p. the (List.find (\<lambda>f. path f = p) fileList)) (filter (\<lambda>p. p \<in> path ` set fileList) ps)"
  by (induction ps) (auto split: option.splits simp: find_path_None dest: find_in_set)

lemma filesOfPaths_Nil: "filesOfPaths fileList ps = [] \<longleftrightarrow> (\<forall>p \<in> set ps. p \<notin> path ` set fileList)"
proof -
  have "filesOfPaths fileList ps = [] \<longleftrightarrow> map path (filesOfPaths fileList ps) = []"
    by simp
  also have "\<dots> \<longleftrightarrow> (\<forall>p \<in> set ps. p \<notin> path ` set fileList)"
    unfolding paths_filesOfPaths by (simp add: filter_empty_conv)
  finally show ?thesis .
qed

text \<open>
  C7. Discarding resolves the paths against the working directory of the props it is run
  with: a single path that no file has calls nothing, and a single path of a file
  forwards a file of the working directory that has this path; a list of paths of which
  no file is left calls nothing, and otherwise the batch callback is called once, with
  files of the working directory whose paths are the paths still present, in the order
  of the list. The item of the menu carries the paths only, and running it is this
  resolution.
\<close>

theorem discard_resolves_when_run:
  "((\<forall>f \<in> set (files (workingDirectory props)). path f \<noteq> p) \<longrightarrow>
       onDiscardChanges props (Str p) = [])
   \<and> (p \<in> path ` set (files (workingDirectory props)) \<longrightarrow>
       (\<exists>f \<in> set (files (workingDirectory props)). path f = p \<and>
          onDiscardChanges props (Str p) = [Props_onDiscardChanges f]))
   \<and> ((\<forall>q \<in> set ps. q \<notin> path ` set (files (workingDirectory props))) \<longrightarrow>
       onDiscardChanges props (Arr ps) = [])
   \<and> ((\<exists>q \<in> set ps. q \<in> path ` set (files (workingDirectory props))) \<longrightarrow>
       (\<exists>fs. onDiscardChanges props (Arr ps) = [Props_onDiscardAllChanges fs] \<and>
          set fs \<subseteq> set (files (workingDirectory props)) \<and>
          map path fs = filter (\<lambda>q. q \<in> path ` set (files (workingDirectory props))) ps))
   \<and> item_action (hd (onItemContextMenu pl props0 target st)) =
       Some (Action_onDiscardChanges (map path (selectedFiles props0)))
   \<and> run_action props (Action_onDiscardChanges ps) = onDiscardChanges props (Arr ps)"
proof -
  let ?fl = "files (workingDirectory props)"
  have single_none: "(\<forall>f \<in> set ?fl. path f \<noteq> p) \<longrightarrow> onDiscardChanges props (Str p) = []"
  proof
    assume "\<forall>f \<in> set ?fl. path f \<noteq> p"
    then have "List.find (\<lambda>f. path f = p) ?fl = None"
      by (auto simp: find_None_iff)
    then show "onDiscardChanges props (Str p) = []" by simp
  qed
  have single_some: "p \<in> path ` set ?fl \<longrightarrow>
       (\<exists>f \<in> set ?fl. path f = p \<and> onDiscardChanges props (Str p) = [Props_onDiscardChanges f])"
  proof
    assume "p \<in> path ` set ?fl"
    then obtain f where f: "List.find (\<lambda>f. path f = p) ?fl = Some f"
      by (cases "List.find (\<lambda>f. path f = p) ?fl") (auto simp: find_path_None)
    then have "f \<in> set ?fl" "path f = p" by (auto dest: find_in_set)
    moreover from f have "onDiscardChanges props (Str p) = [Props_onDiscardChanges f]" by simp
    ultimately show "\<exists>f \<in> set ?fl. path f = p \<and>
        onDiscardChanges props (Str p) = [Props_onDiscardChanges f]" by blast
  qed
  have batch_none: "(\<forall>q \<in> set ps. q \<notin> path ` set ?fl) \<longrightarrow> onDiscardChanges props (Arr ps) = []"
    by (simp add: Let_def filesOfPaths_Nil)
  have batch_some: "(\<exists>q \<in> set ps. q \<in> path ` set ?fl) \<longrightarrow>
       (\<exists>fs. onDiscardChanges props (Arr ps) = [Props_onDiscardAllChanges fs] \<and>
          set fs \<subseteq> set ?fl \<and> map path fs = filter (\<lambda>q. q \<in> path ` set ?fl) ps)"
  proof
    assume "\<exists>q \<in> set ps. q \<in> path ` set ?fl"
    then have "filesOfPaths ?fl ps \<noteq> []" by (simp add: filesOfPaths_Nil)
    then have "onDiscardChanges props (Arr ps) = [Props_onDiscardAllChanges (filesOfPaths ?fl ps)]"
      by (simp add: Let_def)
    with set_filesOfPaths [of ?fl ps] paths_filesOfPaths [of ?fl ps]
    show "\<exists>fs. onDiscardChanges props (Arr ps) = [Props_onDiscardAllChanges fs] \<and>
          set fs \<subseteq> set ?fl \<and> map path fs = filter (\<lambda>q. q \<in> path ` set ?fl) ps"
      by blast
  qed
  have menu: "item_action (hd (onItemContextMenu pl props0 target st)) =
       Some (Action_onDiscardChanges (map path (selectedFiles props0)))"
    by (simp add: onItemContextMenu_def Let_def discardItem_def)
  have run: "run_action props (Action_onDiscardChanges ps) = onDiscardChanges props (Arr ps)"
    by simp
  from single_none single_some batch_none batch_some menu run show ?thesis by blast
qed


theorem discard_resolves_when_run_witness:
  "onDiscardChanges (propsOf [changedFile ''1'' ''a.txt'' Modified, changedFile ''2'' ''b.txt'' New] [])
      (Str ''gone.txt'') = []
   \<and> onDiscardChanges (propsOf [changedFile ''1'' ''a.txt'' Modified, changedFile ''2'' ''b.txt'' New] [])
      (Str ''b.txt'') = [Props_onDiscardChanges (changedFile ''2'' ''b.txt'' New)]
   \<and> onDiscardChanges (propsOf [changedFile ''1'' ''a.txt'' Modified, changedFile ''2'' ''b.txt'' New] [])
      (Arr [''gone.txt'']) = []
   \<and> onDiscardChanges (propsOf [changedFile ''1'' ''a.txt'' Modified, changedFile ''2'' ''b.txt'' New] [])
      (Arr [''b.txt'', ''gone.txt'', ''a.txt'']) =
      [Props_onDiscardAllChanges [changedFile ''2'' ''b.txt'' New, changedFile ''1'' ''a.txt'' Modified]]"
proof -
  let ?P = "propsOf [changedFile ''1'' ''a.txt'' Modified, changedFile ''2'' ''b.txt'' New] []"
  have absent: "\<forall>f \<in> set (files (workingDirectory ?P)). path f \<noteq> ''gone.txt''"
    by (simp add: propsOf_def changedFile_def)
  have present: "''b.txt'' \<in> path ` set (files (workingDirectory ?P))"
    by (simp add: propsOf_def changedFile_def)
  have none: "\<forall>q \<in> set [''gone.txt'']. q \<notin> path ` set (files (workingDirectory ?P))"
    by (simp add: propsOf_def changedFile_def)
  have some: "\<exists>q \<in> set [''b.txt'', ''gone.txt'', ''a.txt''].
      q \<in> path ` set (files (workingDirectory ?P))"
    by (simp add: propsOf_def changedFile_def)
  from discard_resolves_when_run [of ?P "''gone.txt''" "[''gone.txt'']"] absent none
  have "onDiscardChanges ?P (Str ''gone.txt'') = []" "onDiscardChanges ?P (Arr [''gone.txt'']) = []"
    by blast+
  moreover
  from discard_resolves_when_run [of ?P "''b.txt''" "[''b.txt'', ''gone.txt'', ''a.txt'']"]
    present some
  obtain f fs where "f \<in> set (files (workingDirectory ?P))" "path f = ''b.txt''"
    "onDiscardChanges ?P (Str ''b.txt'') = [Props_onDiscardChanges f]"
    "onDiscardChanges ?P (Arr [''b.txt'', ''gone.txt'', ''a.txt'']) = [Props_onDiscardAllChanges fs]"
    by blast
  moreover have "onDiscardChanges ?P (Str ''b.txt'') =
      [Props_onDiscardChanges (changedFile ''2'' ''b.txt'' New)]"
    by code_simp
  moreover have "onDiscardChanges ?P (Arr [''b.txt'', ''gone.txt'', ''a.txt'']) =
      [Props_onDiscardAllChanges [changedFile ''2'' ''b.txt'' New, changedFile ''1'' ''a.txt'' Modified]]"
    by code_simp
  ultimately show ?thesis by simp
qed

subsection \<open>The files of the selection\<close>

lemma find_id_None:
  "List.find (\<lambda>f. file_id f = i) fileList = None \<longleftrightarrow> i \<notin> file_id ` set fileList"
  by (auto simp: find_None_iff)

lemma set_filesOfIDs: "set (filesOfIDs fileList ids) \<subseteq> set fileList"
  by (induction ids) (auto split: option.splits dest: find_in_set)

lemma ids_filesOfIDs:
  "map file_id (filesOfIDs fileList ids) = filter (\<lambda>i. i \<in> file_id ` set fileList) ids"
proof (induction ids)
  case Nil
  show ?case by simp
next
  case (Cons i ids)
  show ?case
  proof (cases "List.find (\<lambda>f. file_id f = i) fileList")
    case None
    then have "i \<notin> file_id ` set fileList" by (simp add: find_id_None)
    with None Cons.IH show ?thesis by simp
  next
    case (Some f)
    then have "file_id f = i" "f \<in> set fileList" by (auto dest: find_in_set)
    with Some Cons.IH show ?thesis by (auto simp: image_iff)
  qed
qed

lemma filesOfIDs_first:
  "filesOfIDs fileList ids =
     map (\<lambda>i. the (List.find (\<lambda>f. file_id f = i) fileList))
       (filter (\<lambda>i. i \<in> file_id ` set fileList) ids)"
  by (induction ids) (auto split: option.splits simp: find_id_None dest: find_in_set)

lemma menu_filter_open:
  "filter is_open (onItemContextMenu pl props target st) =
     [openItem pl (extensionsOf pl (selectedFiles props)) target st]"
  by (simp add: onItemContextMenu_def Let_def discardItem_def revealItem_def openItem_def
      extensionItems_filter_open ignoreItems_filter_open)

lemma isSafeExtension_selected:
  "isSafeExtension pl (extensionsOf pl selected) \<longleftrightarrow>
     (pl = Win32 \<longrightarrow>
        (\<forall>f \<in> set selected. toLowerCase (extname pl (path f)) \<notin> set RestrictedFileExtensions))"
  by (auto simp: isSafeExtension_def extensionsOf_def list_all_iff set_seenFilter)

text \<open>
  C3, as claimed, fails: with the file \<open>src/a.sh\<close> in the working directory and nothing
  selected, a right-click on the file finds no file at all, not the right-clicked one.
  The item that discards carries no path and calls nothing when it is run, and the menu
  has no item that ignores.
\<close>

theorem effective_set_empty_selection:
  "selectedFiles (propsOf [changedFile ''1'' ''src/a.sh'' Modified] []) = []
   \<and> map item_action (onItemContextMenu Win32
        (propsOf [changedFile ''1'' ''src/a.sh'' Modified] []) ''src/a.sh'' Modified) =
       [Some (Action_onDiscardChanges []), None, None,
        Some (Action_onRevealInFileManager ''src/a.sh''), Some (Action_onOpenItem ''src/a.sh'')]
   \<and> run_action (propsOf [changedFile ''1'' ''src/a.sh'' Modified] [])
        (Action_onDiscardChanges []) = []"
  by code_simp

text \<open>
  C3, amended. For every right-click the files the menu works on are the selected
  identifiers resolved against the working directory, each to the first file that has
  it, in the order of the selection, the identifiers that no file has being dropped;
  the item that discards is the first of the menu and carries the paths of these files.
  This is so whatever the selection is: when it is empty no file is found, the
  right-clicked file does not stand in, the item that discards carries no path and
  calls nothing when run, and the menu has no item that ignores.
\<close>

theorem effective_set_is_resolved_selection:
  "selectedFiles props =
     map (\<lambda>i. the (List.find (\<lambda>f. file_id f = i) (files (workingDirectory props))))
       (filter (\<lambda>i. i \<in> file_id ` set (files (workingDirectory props))) (selectedFilesID props))
   \<and> set (selectedFiles props) \<subseteq> set (files (workingDirectory props))
   \<and> map file_id (selectedFiles props) =
       filter (\<lambda>i. i \<in> file_id ` set (files (workingDirectory props))) (selectedFilesID props)
   \<and> take 2 (onItemContextMenu pl props target st) =
       [discardItem pl (map path (selectedFiles props)), Separator]
   \<and> (selectedFilesID props = [] \<longrightarrow>
        selectedFiles props = [] \<and>
        onItemContextMenu pl props target st =
          [discardItem pl [], Separator, Separator, revealItem pl target st,
           openItem pl [] target st] \<and>
        run_action props' (Action_onDiscardChanges []) = [])"
proof -
  have "selectedFilesID props = [] \<longrightarrow>
        selectedFiles props = [] \<and>
        onItemContextMenu pl props target st =
          [discardItem pl [], Separator, Separator, revealItem pl target st,
           openItem pl [] target st] \<and>
        run_action props' (Action_onDiscardChanges []) = []"
    by (simp add: onItemContextMenu_def Let_def selectedFiles_def ignoreItems_def extensionsOf_def)
  moreover have "take 2 (onItemContextMenu pl props target st) =
       [discardItem pl (map path (selectedFiles props)), Separator]"
    by (simp add: onItemContextMenu_def Let_def)
  ultimately show ?thesis
    using filesOfIDs_first [of "files (workingDirectory props)" "selectedFilesID props"]
      set_filesOfIDs [of "files (workingDirectory props)" "selectedFilesID props"]
      ids_filesOfIDs [of "files (workingDirectory props)" "selectedFilesID props"]
    unfolding selectedFiles_def by blast
qed

theorem effective_set_is_resolved_selection_witness:
  "selectedFiles (propsOf [changedFile ''1'' ''src/a.sh'' Modified] []) = []
   \<and> onItemContextMenu Linux (propsOf [changedFile ''1'' ''src/a.sh'' Modified] [])
        ''src/a.sh'' Modified =
       [discardItem Linux [], Separator, Separator, revealItem Linux ''src/a.sh'' Modified,
        openItem Linux [] ''src/a.sh'' Modified]"
proof -
  have "selectedFilesID (propsOf [changedFile ''1'' ''src/a.sh'' Modified] []) = []"
    by (simp add: propsOf_def)
  with effective_set_is_resolved_selection
    [of "propsOf [changedFile ''1'' ''src/a.sh'' Modified] []" Linux "''src/a.sh''" Modified]
  show ?thesis by blast
qed

subsection \<open>Opening the file\<close>

lemma restricted_examples:
  "toLowerCase ''.SH'' = ''.sh''"
  "toLowerCase ''.Exe'' = ''.exe''"
  "map item_enabled (filter is_open (onItemContextMenu Win32
      (propsOf [changedFile ''1'' ''tools/RUN.SH'' Modified] [''1'']) ''tools/RUN.SH'' Modified)) =
     [Some False]"
  "map item_enabled (filter is_open (onItemContextMenu Win32
      (propsOf [changedFile ''1'' ''Setup.Exe'' New] [''1'']) ''Setup.Exe'' New)) = [Some False]"
  "map item_enabled (filter is_open (onItemContextMenu Linux
      (propsOf [changedFile ''1'' ''tools/RUN.SH'' Modified] [''1'']) ''tools/RUN.SH'' Modified)) =
     [Some True]"
  by code_simp+

lemma lowerChar_variant:
  "\<forall>c. \<forall>d \<in> set ''.abcdehmstx''. (lowerChar c = d) = variantChar c d"
  by code_simp


lemma toLowerCase_variant:
  "set r \<subseteq> set ''.abcdehmstx'' \<Longrightarrow> (toLowerCase e = r) = caseVariant e r"
proof (induction e arbitrary: r)
  case Nil
  show ?case by (auto simp: toLowerCase_def caseVariant_def)
next
  case (Cons c e)
  show ?case
  proof (cases r)
    case Nil
    then show ?thesis by (simp add: toLowerCase_def caseVariant_def)
  next
    case (Cons d r')
    with Cons.prems have d: "d \<in> set ''.abcdehmstx''" and r': "set r' \<subseteq> set ''.abcdehmstx''"
      by auto
    from d have "(lowerChar c = d) = variantChar c d"
      using lowerChar_variant by blast
    moreover from Cons.IH [OF r'] have "(map lowerChar e = r') = list_all2 variantChar e r'"
      by (simp add: toLowerCase_def caseVariant_def)
    ultimately show ?thesis
      using Cons by (simp add: toLowerCase_def caseVariant_def)
  qed
qed

lemma restricted_chars:
  "r \<in> set RestrictedFileExtensions \<Longrightarrow> set r \<subseteq> set ''.abcdehmstx''"
  by (auto simp: RestrictedFileExtensions_def)

lemma restricted_iff_variant:
  "toLowerCase e \<in> set RestrictedFileExtensions \<longleftrightarrow>
     (\<exists>r \<in> set RestrictedFileExtensions. caseVariant e r)"
proof
  assume "toLowerCase e \<in> set RestrictedFileExtensions"
  then show "\<exists>r \<in> set RestrictedFileExtensions. caseVariant e r"
    using toLowerCase_variant [OF restricted_chars, of "toLowerCase e" e] by blast
next
  assume "\<exists>r \<in> set RestrictedFileExtensions. caseVariant e r"
  then obtain r where r: "r \<in> set RestrictedFileExtensions" and "caseVariant e r" by blast
  then have "toLowerCase e = r"
    using toLowerCase_variant [OF restricted_chars, of r e] by blast
  with r show "toLowerCase e \<in> set RestrictedFileExtensions" by simp
qed

lemma variant_examples:
  "caseVariant ''.SH'' ''.sh''"
  "caseVariant ''.Exe'' ''.exe''"
  "caseVariant ''.EXE'' ''.exe''"
  "caseVariant ''.cMd'' ''.cmd''"
  "\<not> caseVariant ''.shh'' ''.sh''"
  "\<not> caseVariant ''.txt'' ''.bat''"
  by code_simp+

text \<open>
  C10. The restricted extensions are exactly \<open>.cmd\<close>, \<open>.exe\<close>, \<open>.bat\<close> and \<open>.sh\<close>. On
  Windows every extension is lowered before it is looked up, so the extensions that
  pass are exactly those that are a case variant of none of the four: a file of the
  selection whose extension is any upper-case or mixed-case variant of a restricted
  one disables the item that opens the file. So \<open>.SH\<close>, \<open>.Exe\<close>, \<open>.EXE\<close> and \<open>.cMd\<close> are
  variants, \<open>.SH\<close> lowers to \<open>.sh\<close> and \<open>.Exe\<close> to \<open>.exe\<close>, and the selections of
  \<open>tools/RUN.SH\<close> and of \<open>Setup.Exe\<close> disable the item on Windows (the first leaves it
  enabled on Linux).
\<close>

theorem restricted_extensions_any_case:
  "set RestrictedFileExtensions = {''.cmd'', ''.exe'', ''.bat'', ''.sh''}
   \<and> isSafeExtension Win32 extensions =
       (\<forall>e \<in> set extensions. toLowerCase e \<notin> {''.cmd'', ''.exe'', ''.bat'', ''.sh''})
   \<and> isSafeExtension Win32 extensions =
       (\<forall>e \<in> set extensions. \<forall>r \<in> {''.cmd'', ''.exe'', ''.bat'', ''.sh''}. \<not> caseVariant e r)
   \<and> (f \<in> set (selectedFiles props) \<and>
        toLowerCase (extname Win32 (path f)) \<in> {''.cmd'', ''.exe'', ''.bat'', ''.sh''} \<longrightarrow>
        map item_enabled (filter is_open (onItemContextMenu Win32 props target st)) = [Some False])
   \<and> (f \<in> set (selectedFiles props) \<and> r \<in> {''.cmd'', ''.exe'', ''.bat'', ''.sh''} \<and>
        caseVariant (extname Win32 (path f)) r \<longrightarrow>
        map item_enabled (filter is_open (onItemContextMenu Win32 props target st)) = [Some False])
   \<and> caseVariant ''.SH'' ''.sh'' \<and> caseVariant ''.Exe'' ''.exe''
   \<and> caseVariant ''.EXE'' ''.exe'' \<and> caseVariant ''.cMd'' ''.cmd''
   \<and> toLowerCase ''.SH'' = ''.sh''
   \<and> toLowerCase ''.Exe'' = ''.exe''
   \<and> map item_enabled (filter is_open (onItemContextMenu Win32
        (propsOf [changedFile ''1'' ''tools/RUN.SH'' Modified] [''1'']) ''tools/RUN.SH'' Modified)) =
       [Some False]
   \<and> map item_enabled (filter is_open (onItemContextMenu Win32
        (propsOf [changedFile ''1'' ''Setup.Exe'' New] [''1'']) ''Setup.Exe'' New)) = [Some False]
   \<and> map item_enabled (filter is_open (onItemContextMenu Linux
        (propsOf [changedFile ''1'' ''tools/RUN.SH'' Modified] [''1'']) ''tools/RUN.SH'' Modified)) =
       [Some True]"
proof -
  have deny: "set RestrictedFileExtensions = {''.cmd'', ''.exe'', ''.bat'', ''.sh''}"
    by (simp add: RestrictedFileExtensions_def)
  have safe: "isSafeExtension Win32 extensions =
       (\<forall>e \<in> set extensions. toLowerCase e \<notin> {''.cmd'', ''.exe'', ''.bat'', ''.sh''})"
    unfolding deny [symmetric] by (simp add: isSafeExtension_def list_all_iff)
  have safe_variant: "isSafeExtension Win32 extensions =
       (\<forall>e \<in> set extensions. \<forall>r \<in> {''.cmd'', ''.exe'', ''.bat'', ''.sh''}. \<not> caseVariant e r)"
    unfolding deny [symmetric]
    by (simp add: isSafeExtension_def list_all_iff restricted_iff_variant)
  have menu: "f \<in> set (selectedFiles props) \<and>
        toLowerCase (extname Win32 (path f)) \<in> {''.cmd'', ''.exe'', ''.bat'', ''.sh''} \<longrightarrow>
        map item_enabled (filter is_open (onItemContextMenu Win32 props target st)) = [Some False]"
    unfolding deny [symmetric] menu_filter_open openItem_def isSafeExtension_selected by auto
  have menu_variant: "f \<in> set (selectedFiles props) \<and>
        r \<in> {''.cmd'', ''.exe'', ''.bat'', ''.sh''} \<and>
        caseVariant (extname Win32 (path f)) r \<longrightarrow>
        map item_enabled (filter is_open (onItemContextMenu Win32 props target st)) = [Some False]"
  proof
    assume a: "f \<in> set (selectedFiles props) \<and> r \<in> {''.cmd'', ''.exe'', ''.bat'', ''.sh''} \<and>
        caseVariant (extname Win32 (path f)) r"
    then have "toLowerCase (extname Win32 (path f)) \<in> set RestrictedFileExtensions"
      unfolding deny [symmetric] restricted_iff_variant by blast
    with a menu show "map item_enabled (filter is_open (onItemContextMenu Win32 props target st)) =
        [Some False]"
      unfolding deny [symmetric] by blast
  qed
  from deny safe safe_variant menu menu_variant restricted_examples variant_examples(1-4)
  show ?thesis by blast
qed

theorem restricted_extensions_any_case_witness:
  "map item_enabled (filter is_open (onItemContextMenu Win32
      (propsOf [changedFile ''1'' ''a.txt'' New, changedFile ''2'' ''build/Make.BAT'' New]
         [''1'', ''2'']) ''a.txt'' New)) = [Some False]"
proof -
  let ?P = "propsOf [changedFile ''1'' ''a.txt'' New, changedFile ''2'' ''build/Make.BAT'' New]
         [''1'', ''2'']"
  let ?f = "changedFile ''2'' ''build/Make.BAT'' New"
  note inst = restricted_extensions_any_case [of _ ?f ?P "''a.txt''" New "''.bat''"]
  have sel: "?f \<in> set (selectedFiles ?P)"
    by code_simp
  have low: "toLowerCase (extname Win32 (path ?f)) \<in> {''.cmd'', ''.exe'', ''.bat'', ''.sh''}"
    by code_simp
  have var: "''.bat'' \<in> {''.cmd'', ''.exe'', ''.bat'', ''.sh''} \<and>
      caseVariant (extname Win32 (path ?f)) ''.bat''"
    by code_simp
  from inst sel low have "map item_enabled (filter is_open
      (onItemContextMenu Win32 ?P ''a.txt'' New)) = [Some False]"
    by blast
  moreover from inst sel var have "map item_enabled (filter is_open
      (onItemContextMenu Win32 ?P ''a.txt'' New)) = [Some False]"
    by blast
  ultimately show ?thesis by simp
qed

text \<open>
  C2. The claim: the item that opens the right-clicked file is enabled only if the
  status of that file is not deleted and, on Windows, its extension is not restricted;
  right-clicking the modified file \<open>src/a.sh\<close> with nothing selected gives a disabled
  item on Windows. The check of the extensions reads the files found for the selection
  and never the right-clicked path, which is the one the item opens: with nothing
  selected the item for \<open>src/a.sh\<close> is enabled on Windows, and with \<open>notes.txt\<close> selected
  so is the item that opens the right-clicked \<open>evil.exe\<close>. With \<open>src/a.sh\<close> itself
  selected the item is disabled on Windows and enabled on the two other platforms, as
  the claim has it.
\<close>

theorem open_gate_does_not_read_target:
  "map item_enabled (filter is_open (onItemContextMenu Win32
      (propsOf [changedFile ''1'' ''src/a.sh'' Modified] []) ''src/a.sh'' Modified)) = [Some True]
   \<and> map item_enabled (filter is_open (onItemContextMenu Win32
      (propsOf [changedFile ''1'' ''notes.txt'' Modified, changedFile ''2'' ''evil.exe'' New]
         [''1'']) ''evil.exe'' New)) = [Some True]
   \<and> map item_action (filter is_open (onItemContextMenu Win32
      (propsOf [changedFile ''1'' ''notes.txt'' Modified, changedFile ''2'' ''evil.exe'' New]
         [''1'']) ''evil.exe'' New)) = [Some (Action_onOpenItem ''evil.exe'')]
   \<and> map item_enabled (filter is_open (onItemContextMenu Win32
      (propsOf [changedFile ''1'' ''src/a.sh'' Modified] [''1'']) ''src/a.sh'' Modified)) = [Some False]
   \<and> map item_enabled (filter is_open (onItemContextMenu Darwin
      (propsOf [changedFile ''1'' ''src/a.sh'' Modified] [''1'']) ''src/a.sh'' Modified)) = [Some True]
   \<and> map item_enabled (filter is_open (onItemContextMenu Linux
      (propsOf [changedFile ''1'' ''src/a.sh'' Modified] [''1'']) ''src/a.sh'' Modified)) = [Some True]"
  by code_simp

subsection \<open>The checkbox of the header\<close>

text \<open>
  C9, as claimed, fails: a working directory without files whose flag \<open>includeAll\<close> is
  true renders the checkbox as \<open>On\<close>, not as \<open>Off\<close>.
\<close>

theorem empty_working_directory_renders_flag:
  "checkbox_value (render \<lparr>workingDirectory = \<lparr>files = [], includeAll = Some True\<rparr>,
      selectedFilesID = []\<rparr>) = On"
  by (simp add: render_def Let_def includeAllValue_def)

text \<open>
  C9, amended. The value of the checkbox of the header is a function of the flag
  \<open>includeAll\<close> of the working directory alone: \<open>On\<close> for true, \<open>Off\<close> for false,
  \<open>Mixed\<close> for null; the files play no part in it. A working directory without files
  gets a disabled checkbox, and the commit form is told that no file is selected, as
  it is for \<open>Off\<close>. The checkbox of a row follows the selection of its file in the same
  way: all is true, none is false, partial is null.
\<close>

theorem checkbox_follows_flag:
  "includeAllValue props =
     (case includeAll (workingDirectory props) of
        Some True \<Rightarrow> On | Some False \<Rightarrow> Off | None \<Rightarrow> Mixed)
   \<and> checkbox_value (render props) = includeAllValue props
   \<and> (files (workingDirectory props) = [] \<longrightarrow>
        checkbox_disabled (render props) \<and> \<not> commit_anyFilesSelected (render props))
   \<and> (row < length (files (workingDirectory props)) \<longrightarrow>
        map_option cf_include (renderRow props row) =
          Some (case selection (files (workingDirectory props) ! row) of
                  All_selection \<Rightarrow> Some True
                | None_selection \<Rightarrow> Some False
                | Partial_selection \<Rightarrow> None))"
proof -
  have "includeAllValue props =
     (case includeAll (workingDirectory props) of
        Some True \<Rightarrow> On | Some False \<Rightarrow> Off | None \<Rightarrow> Mixed)"
    by (simp add: includeAllValue_def Let_def split: option.splits bool.splits)
  moreover have "checkbox_value (render props) = includeAllValue props"
    by (simp add: render_def Let_def)
  moreover have "files (workingDirectory props) = [] \<longrightarrow>
        checkbox_disabled (render props) \<and> \<not> commit_anyFilesSelected (render props)"
    by (simp add: render_def Let_def)
  moreover have "row < length (files (workingDirectory props)) \<longrightarrow>
        map_option cf_include (renderRow props row) =
          Some (case selection (files (workingDirectory props) ! row) of
                  All_selection \<Rightarrow> Some True
                | None_selection \<Rightarrow> Some False
                | Partial_selection \<Rightarrow> None)"
    by (simp add: renderRow_def Let_def split: DiffSelectionType.splits)
  ultimately show ?thesis by blast
qed

theorem checkbox_follows_flag_witness:
  "checkbox_disabled (render \<lparr>workingDirectory = \<lparr>files = [], includeAll = Some False\<rparr>,
      selectedFilesID = []\<rparr>)
   \<and> \<not> commit_anyFilesSelected (render \<lparr>workingDirectory = \<lparr>files = [], includeAll = Some False\<rparr>,
      selectedFilesID = []\<rparr>)
   \<and> map_option cf_include (renderRow
        \<lparr>workingDirectory =
           \<lparr>files = [\<lparr>file_id = ''1'', path = ''a.txt'', oldPath = None, status = Modified,
                       selection = Partial_selection\<rparr>],
            includeAll = None\<rparr>,
         selectedFilesID = []\<rparr> 0) = Some None"
proof -
  have "files (workingDirectory \<lparr>workingDirectory = \<lparr>files = [], includeAll = Some False\<rparr>,
      selectedFilesID = []\<rparr>) = []"
    by simp
  with checkbox_follows_flag [of "\<lparr>workingDirectory = \<lparr>files = [], includeAll = Some False\<rparr>,
      selectedFilesID = []\<rparr>" 0]
  have a: "checkbox_disabled (render \<lparr>workingDirectory = \<lparr>files = [], includeAll = Some False\<rparr>,
      selectedFilesID = []\<rparr>)
   \<and> \<not> commit_anyFilesSelected (render \<lparr>workingDirectory = \<lparr>files = [], includeAll = Some False\<rparr>,
      selectedFilesID = []\<rparr>)"
    by blast
  have "(0::nat) < length (files (workingDirectory \<lparr>workingDirectory =
           \<lparr>files = [\<lparr>file_id = ''1'', path = ''a.txt'', oldPath = None, status = Modified,
                       selection = Partial_selection\<rparr>],
            includeAll = None\<rparr>,
         selectedFilesID = []\<rparr>))"
    by simp
  with checkbox_follows_flag [of "\<lparr>workingDirectory =
           \<lparr>files = [\<lparr>file_id = ''1'', path = ''a.txt'', oldPath = None, status = Modified,
                       selection = Partial_selection\<rparr>],
            includeAll = None\<rparr>,
         selectedFilesID = []\<rparr>" 0]
  have "map_option cf_include (renderRow
        \<lparr>workingDirectory =
           \<lparr>files = [\<lparr>file_id = ''1'', path = ''a.txt'', oldPath = None, status = Modified,
                       selection = Partial_selection\<rparr>],
            includeAll = None\<rparr>,
         selectedFilesID = []\<rparr> 0) = Some None"
    by simp
  with a show ?thesis by blast
qed

end
